theory Spec2Isabelle
  imports Complex_Main "HOL-Library.Sublist" "HOL-Library.Multiset" "HOL-Library.AList"
begin

section \<open>JavaScript strings\<close>

text \<open>
  A string is a list of code units. The model reads a \<^typ>\<open>char\<close> as the code unit of the
  same number, so it covers the texts whose code units lie in U+0000..U+00FF. On that range
  \<open>trim\<close>, \<open>toLowerCase\<close>, \<open>includes\<close>, \<open>split\<close>, \<open>join\<close> and the regular expression
  \<open>/\d+/\<close> are written out below as ECMAScript defines them.
\<close>

text \<open>White space and line terminators of ECMAScript below U+0100:
  TAB, LF, VT, FF, CR, SPACE and NO-BREAK SPACE.\<close>

definition isWhiteSpace :: "char \<Rightarrow> bool" where
  "isWhiteSpace c = (of_char c \<in> {9, 10, 11, 12, 13, 32, 160 :: nat})"

text \<open>\<open>s.trim()\<close>\<close>

definition trim_str :: "string \<Rightarrow> string" where
  "trim_str s = rev (dropWhile isWhiteSpace (rev (dropWhile isWhiteSpace s)))"

text \<open>\<open>s.toLowerCase()\<close>: A..Z and the capital letters U+00C0..U+00DE (without the
  multiplication sign U+00D7) move up by 32; every other code unit below U+0100 stays.\<close>

definition toLowerChar :: "char \<Rightarrow> char" where
  "toLowerChar c =
     (let n = (of_char c :: nat) in
      if (65 \<le> n \<and> n \<le> 90) \<or> (192 \<le> n \<and> n \<le> 222 \<and> n \<noteq> 215) then char_of (n + 32) else c)"

definition toLowerCase :: "string \<Rightarrow> string" where
  "toLowerCase s = map toLowerChar s"

text \<open>\<open>s.includes(sub)\<close>: \<open>sub\<close> occurs in \<open>s\<close> at some position.\<close>

fun includes_str :: "string \<Rightarrow> string \<Rightarrow> bool" where
  "includes_str [] sub = (sub = [])"
| "includes_str (c # cs) sub = (prefix sub (c # cs) \<or> includes_str cs sub)"

text \<open>\<open>s.split(sep)\<close> with a string separator: the occurrences of \<open>sep\<close> are found from
  the left, without overlap; \<open>cur\<close> is the piece being collected. The empty separator cuts
  between all code units.\<close>

function splitFrom :: "string \<Rightarrow> string \<Rightarrow> string \<Rightarrow> string list" where
  "splitFrom sep cur [] = [cur]"
| "splitFrom sep cur (c # cs) =
     (if sep \<noteq> [] \<and> prefix sep (c # cs)
      then cur # splitFrom sep [] (drop (length sep) (c # cs))
      else splitFrom sep (cur @ [c]) cs)"
  by pat_completeness auto
termination
  by (relation "measure (\<lambda>(sep, cur, s). length s)") (auto simp: neq_Nil_conv)

definition split_str :: "string \<Rightarrow> string \<Rightarrow> string list" where
  "split_str s sep = (if sep = [] then map (\<lambda>c. [c]) s else splitFrom sep [] s)"

text \<open>\<open>parts.join(sep)\<close>\<close>

fun join_str :: "string list \<Rightarrow> string \<Rightarrow> string" where
  "join_str [] sep = []"
| "join_str [p] sep = p"
| "join_str (p # q # ps) sep = p @ sep @ join_str (q # ps) sep"

text \<open>\<open>s.toUpperCase()\<close>: a..z and the small letters U+00E0..U+00FE (without the division
  sign U+00F7) move down by 32 and the sharp s U+00DF becomes \<open>SS\<close>. The capitals of U+00B5
  and U+00FF lie above U+00FF, outside the range of this model; both are left as they are
  here.\<close>

definition toUpperChar :: "char \<Rightarrow> string" where
  "toUpperChar c =
     (let n = (of_char c :: nat) in
      if (97 \<le> n \<and> n \<le> 122) \<or> (224 \<le> n \<and> n \<le> 254 \<and> n \<noteq> 247) then [char_of (n - 32)]
      else if n = 223 then ''SS'' else [c])"

definition toUpperCase :: "string \<Rightarrow> string" where
  "toUpperCase s = concat (map toUpperChar s)"

text \<open>\<open>/\d/\<close>: the ten ASCII digits.\<close>

definition isDigit :: "char \<Rightarrow> bool" where
  "isDigit c = (48 \<le> (of_char c :: nat) \<and> (of_char c :: nat) \<le> 57)"

section \<open>Text parser (agent assignment dashboard)\<close>

text \<open>\<open>extractAge\<close>: \<open>ageText.match(/\d+/)\<close> is the leftmost longest run of digits; without
  a match the text is returned as it is.\<close>

definition extractAge :: "string \<Rightarrow> string" where
  "extractAge ageText =
     (let numericMatch = takeWhile isDigit (dropWhile (\<lambda>c. \<not> isDigit c) ageText)
      in if numericMatch \<noteq> [] then numericMatch else ageText)"

text \<open>\<open>cleanName\<close>: when the separator occurs, \<open>split\<close> yields at least two pieces
  (lemma \<open>split_second\<close> below), so the index 1 is in range and \<open>trim\<close> is never called on
  \<open>undefined\<close>.\<close>

definition cleanName :: "string \<Rightarrow> string" where
  "cleanName nameText =
     (if includes_str nameText '' / '' then trim_str (split_str nameText '' / '' ! 1)
      else trim_str nameText)"

text \<open>The five local variables \<open>name\<close>, \<open>age\<close>, \<open>location\<close>, \<open>work\<close>, \<open>application\<close> of
  \<open>processClientInfo\<close>.\<close>

record fields =
  name :: string
  age :: string
  location :: string
  work :: string
  application :: string

text \<open>The chain of \<open>if\<close>/\<open>else if\<close> that matches the lowercased key of a labeled line.\<close>

definition matchLabel :: "string \<Rightarrow> string \<Rightarrow> fields \<Rightarrow> fields" where
  "matchLabel keyLower val f =
     (if includes_str keyLower ''name'' then f\<lparr>name := cleanName val\<rparr>
      else if includes_str keyLower ''age'' then f\<lparr>age := extractAge val\<rparr>
      else if includes_str keyLower ''loc'' then f\<lparr>location := val\<rparr>
      else if includes_str keyLower ''work'' \<or> includes_str keyLower ''occupation''
        then f\<lparr>work := val\<rparr>
      else if includes_str keyLower ''app'' then f\<lparr>application := val\<rparr>
      else f)"

text \<open>The body of the loop over the lines of a labeled block: a line without a colon is
  skipped; otherwise \<open>[key, ...valueParts] = line.split(":")\<close>, the value is
  \<open>valueParts.join(":").trim()\<close> and the key is trimmed and lowercased. \<open>split\<close> with a
  non-empty separator never yields the empty list (lemma \<open>split_str_not_Nil\<close>), so \<open>key\<close> is
  always a string.\<close>

definition labeledLine :: "string \<Rightarrow> fields \<Rightarrow> fields" where
  "labeledLine line f =
     (if \<not> includes_str line '':'' then f
      else
        let parts = split_str line '':'';
            key = hd parts;
            valueParts = tl parts;
            val = trim_str (join_str valueParts '':'');
            keyLower = toLowerCase (trim_str key)
        in matchLabel keyLower val f)"

text \<open>\<open>clientText.split("\n").filter((line) => line.trim() !== "")\<close>\<close>

definition nonEmptyLines :: "string \<Rightarrow> string list" where
  "nonEmptyLines clientText =
     filter (\<lambda>line. trim_str line \<noteq> []) (split_str clientText [CHR 0x0A])"

definition hasLabels :: "string list \<Rightarrow> bool" where
  "hasLabels lines = list_ex (\<lambda>line. includes_str line '':'') lines"

text \<open>The parsing part of \<open>processClientInfo\<close>: from the pasted text to the five variables,
  before validation.\<close>

definition parseClientText :: "string \<Rightarrow> fields" where
  "parseClientText clientText =
     (let lines = nonEmptyLines clientText;
          f0 = \<lparr>name = [], age = [], location = [], work = [], application = []\<rparr>
      in if hasLabels lines then fold labeledLine lines f0
         else if 2 \<le> length lines then
           \<lparr>name = cleanName (trim_str (lines ! 0)),
            age = extractAge (trim_str (lines ! 1)),
            location = (if 3 \<le> length lines then trim_str (lines ! 2) else []),
            work = (if 4 \<le> length lines then trim_str (lines ! 3) else []),
            application = (if 5 \<le> length lines then trim_str (lines ! 4) else [])\<rparr>
         else f0)"

section \<open>State of the dashboard\<close>

datatype stamp = ServerTimestamp

record ClientAssignment = fields +
  id_field :: string
  assignedAgent :: string
  date :: string
  createdAt :: "stamp option"
  updatedAt :: "stamp option"

record toast =
  title :: string
  description :: string
  variant :: "string option"

text \<open>The signed-in user of the auth context; \<open>email\<close> may be \<open>null\<close>.\<close>

record user =
  email :: "string option"

text \<open>
  \<open>clients\<close> is the in-memory list, \<open>savedClients\<close> the item \<open>assignedClients\<close> of the local
  storage (the list it serialises, \<open>None\<close> when the item is absent), \<open>remoteAssignments\<close> the
  remote collection \<open>clientAssignments\<close>, \<open>toasts\<close> the notices shown so far.
\<close>

record dashboard =
  clientText :: string
  clients :: "ClientAssignment list"
  savedClients :: "ClientAssignment list option"
  remoteAssignments :: "ClientAssignment list"
  user :: "user option"
  isAdmin :: bool
  toasts :: "toast list"

text \<open>
  What a handler reads from outside the component: \<open>nowISO\<close> is \<open>new Date().toISOString()\<close>,
  \<open>nowMillis\<close> is \<open>Date.now().toString()\<close>, \<open>freshId\<close> the key the remote store gives a new
  document, \<open>remoteOk\<close> tells whether the awaited remote call resolves (it rejects otherwise)
  and \<open>storageOk\<close> whether \<open>localStorage.setItem\<close> returns (it throws otherwise).
\<close>

record env =
  nowISO :: string
  nowMillis :: string
  freshId :: string
  remoteOk :: bool
  storageOk :: bool

definition destructive :: "string \<Rightarrow> string \<Rightarrow> toast" where
  "destructive t d = \<lparr>title = t, description = d, variant = Some ''destructive''\<rparr>"

definition notice :: "string \<Rightarrow> string \<Rightarrow> toast" where
  "notice t d = \<lparr>title = t, description = d, variant = None\<rparr>"

text \<open>The two notices of \<open>processClientInfo\<close> for rejected input, and the one of its
  \<open>catch\<close> block.\<close>

definition enterClientInformation :: toast where
  "enterClientInformation = destructive ''Error'' ''Please enter client information''"

definition nameAndAgeRequired :: toast where
  "nameAndAgeRequired = destructive ''Error'' ''Name and age are required''"

definition failedToProcess :: toast where
  "failedToProcess = destructive ''Error'' ''Failed to process client information''"

text \<open>\<open>currentAgent\<close>: the part of the user's email before the first \<open>@\<close>.\<close>

definition currentAgent :: "user option \<Rightarrow> string" where
  "currentAgent u =
     (case u of
        None \<Rightarrow> []
      | Some usr \<Rightarrow>
          (case email usr of
             None \<Rightarrow> []
           | Some e \<Rightarrow> if e = [] then [] else hd (split_str e ''@'')))"

definition capitalized :: "string \<Rightarrow> string" where
  "capitalized agent =
     (case agent of [] \<Rightarrow> [] | c # cs \<Rightarrow> toUpperCase [c] @ cs)"

definition newClient :: "env \<Rightarrow> user option \<Rightarrow> fields \<Rightarrow> string \<Rightarrow> ClientAssignment" where
  "newClient e u f ident =
     \<lparr>name = name f,
      age = age f,
      location = (if location f = [] then ''Unknown'' else location f),
      work = (if work f = [] then ''Unknown'' else work f),
      application = (if application f = [] then ''Unknown'' else application f),
      id_field = ident,
      assignedAgent = capitalized (currentAgent u),
      date = hd (split_str (nowISO e) ''T''),
      createdAt = Some ServerTimestamp,
      updatedAt = Some ServerTimestamp\<rparr>"

definition addedToast :: "ClientAssignment \<Rightarrow> toast" where
  "addedToast c =
     notice ''Success''
       (''Client '' @ name c @ '' has been added and assigned to '' @ assignedAgent c)"

text \<open>
  \<open>processClientInfo\<close>. Without a user the new record goes to the in-memory list and to the
  local storage; \<open>setClients\<close> is queued before \<open>setItem\<close> is called, so a throwing
  \<open>setItem\<close> leaves the list extended and ends in the \<open>catch\<close> block. With a user the
  record is added to the remote collection, which assigns its key.
\<close>

definition processClientInfo :: "env \<Rightarrow> dashboard \<Rightarrow> dashboard" where
  "processClientInfo e s =
     (if trim_str (clientText s) = [] then s\<lparr>toasts := toasts s @ [enterClientInformation]\<rparr>
      else
        let f = parseClientText (clientText s) in
        if name f = [] \<or> age f = [] then s\<lparr>toasts := toasts s @ [nameAndAgeRequired]\<rparr>
        else
          (case user s of
             None \<Rightarrow>
               let clientWithId = newClient e (user s) f (nowMillis e) in
               if storageOk e then
                 s\<lparr>clients := clients s @ [clientWithId],
                   savedClients := Some (clients s @ [clientWithId]),
                   clientText := [],
                   toasts := toasts s @ [addedToast clientWithId]\<rparr>
               else
                 s\<lparr>clients := clients s @ [clientWithId],
                   toasts := toasts s @ [failedToProcess]\<rparr>
           | Some usr \<Rightarrow>
               if remoteOk e then
                 s\<lparr>remoteAssignments :=
                     remoteAssignments s @ [newClient e (user s) f (freshId e)],
                   clientText := [],
                   toasts := toasts s @ [addedToast (newClient e (user s) f (freshId e))]\<rparr>
               else s\<lparr>toasts := toasts s @ [failedToProcess]\<rparr>))"

subsection \<open>Deleting a record\<close>

definition permissionDenied :: toast where
  "permissionDenied =
     destructive ''Permission Denied'' ''Only administrators can delete client records''"

definition clientDeleted :: toast where
  "clientDeleted = notice ''Client Deleted'' ''Client has been deleted successfully''"

definition failedToDelete :: toast where
  "failedToDelete = destructive ''Error'' ''Failed to delete client''"

definition handleDeleteClient :: "env \<Rightarrow> dashboard \<Rightarrow> string \<Rightarrow> dashboard" where
  "handleDeleteClient e s clientId =
     (if \<not> isAdmin s then s\<lparr>toasts := toasts s @ [permissionDenied]\<rparr>
      else
        (case user s of
           None \<Rightarrow>
             let kept = filter (\<lambda>client. id_field client \<noteq> clientId) (clients s) in
             if storageOk e then
               s\<lparr>clients := kept, savedClients := Some kept,
                 toasts := toasts s @ [clientDeleted]\<rparr>
             else s\<lparr>clients := kept, toasts := toasts s @ [failedToDelete]\<rparr>
         | Some usr \<Rightarrow>
             if remoteOk e then
               s\<lparr>remoteAssignments :=
                   filter (\<lambda>d. id_field d \<noteq> clientId) (remoteAssignments s),
                 toasts := toasts s @ [clientDeleted]\<rparr>
             else s\<lparr>toasts := toasts s @ [failedToDelete]\<rparr>))"

subsection \<open>The administrator flag\<close>

definition adminEmails :: "string list" where
  "adminEmails = [''admin@example.com'', ''manager@example.com'']"

text \<open>The value given to \<open>setIsAdmin\<close>:
  \<open>adminEmails.includes(user.email || "") || user.email?.includes("admin") || false\<close>
  with a user, \<open>false\<close> without.\<close>

definition adminOf :: "user option \<Rightarrow> bool" where
  "adminOf u =
     (case u of
        None \<Rightarrow> False
      | Some usr \<Rightarrow>
          List.member adminEmails (case email usr of None \<Rightarrow> [] | Some e \<Rightarrow> e) \<or>
          (case email usr of None \<Rightarrow> False | Some e \<Rightarrow> includes_str e ''admin''))"

definition isAdminEffect :: "dashboard \<Rightarrow> dashboard" where
  "isAdminEffect s = s\<lparr>isAdmin := adminOf (user s)\<rparr>"

section \<open>Filter engine\<close>

text \<open>
  What the filter effect needs of a \<open>Date\<close>: \<open>getFullYear()\<close> and \<open>getMonth()\<close> (0 for
  January to 11 for December), both in local time. \<open>new Date(text)\<close> is a parameter \<open>newDate\<close>
  of the model; it yields \<open>None\<close> for an Invalid Date, whose \<open>getMonth()\<close> and
  \<open>getFullYear()\<close> are \<open>NaN\<close> and equal to nothing.
\<close>

record jsdate =
  getFullYear :: int
  getMonth :: int

definition monthMap :: "(string \<times> int) list" where
  "monthMap =
     [(''jan'', 0), (''feb'', 1), (''mar'', 2), (''apr'', 3), (''may'', 4), (''jun'', 5),
      (''jul'', 6), (''aug'', 7), (''sep'', 8), (''oct'', 9), (''nov'', 10), (''dec'', 11)]"

text \<open>The callback of the month filter, for one record; \<open>currentDate\<close> is the \<open>new Date()\<close>
  read inside that call.\<close>

definition monthMatches ::
  "(string \<Rightarrow> jsdate option) \<Rightarrow> jsdate \<Rightarrow> string \<Rightarrow> ClientAssignment \<Rightarrow> bool" where
  "monthMatches newDate currentDate monthFilter client =
     (let clientDate = newDate (date client) in
      if monthFilter = ''current'' then
        (case clientDate of
           None \<Rightarrow> False
         | Some d \<Rightarrow>
             getMonth d = getMonth currentDate \<and> getFullYear d = getFullYear currentDate)
      else if monthFilter = ''previous'' then
        let prevMonth = (if getMonth currentDate = 0 then 11 else getMonth currentDate - 1);
            prevMonthYear =
              (if getMonth currentDate = 0 then getFullYear currentDate - 1
               else getFullYear currentDate)
        in (case clientDate of
              None \<Rightarrow> False
            | Some d \<Rightarrow> getMonth d = prevMonth \<and> getFullYear d = prevMonthYear)
      else
        (case clientDate of
           None \<Rightarrow> False
         | Some d \<Rightarrow>
             (case map_of monthMap monthFilter of
                None \<Rightarrow> False
              | Some m \<Rightarrow> getMonth d = m)))"

text \<open>\<open>filter\<close> with a callback that reads the clock: \<open>clock i\<close> is the \<open>new Date()\<close> read
  in the call for the element at position \<open>i\<close>.\<close>

definition filterAt :: "(nat \<Rightarrow> 'a \<Rightarrow> bool) \<Rightarrow> 'a list \<Rightarrow> 'a list" where
  "filterAt p xs = map snd (filter (\<lambda>(i, x). p i x) (zip [0..<length xs] xs))"

text \<open>The filter effect: the value passed to \<open>setFilteredClients\<close>.\<close>

definition applyFilters ::
  "(string \<Rightarrow> jsdate option) \<Rightarrow> (nat \<Rightarrow> jsdate) \<Rightarrow> ClientAssignment list \<Rightarrow>
     string \<Rightarrow> string \<Rightarrow> string \<Rightarrow> string \<Rightarrow> string \<Rightarrow> ClientAssignment list" where
  "applyFilters newDate clock clientList searchQuery locationFilter applicationFilter
       agentFilter monthFilter =
     (let result0 = clientList;
          result1 =
            (if searchQuery \<noteq> [] then
               let query = toLowerCase searchQuery in
               filter (\<lambda>client.
                   includes_str (toLowerCase (name client)) query \<or>
                   includes_str (toLowerCase (location client)) query \<or>
                   includes_str (toLowerCase (work client)) query \<or>
                   includes_str (toLowerCase (application client)) query \<or>
                   includes_str (toLowerCase (assignedAgent client)) query) result0
             else result0);
          result2 =
            (if locationFilter \<noteq> ''all-locations''
             then filter (\<lambda>client. toLowerCase (location client) = locationFilter) result1
             else result1);
          result3 =
            (if applicationFilter \<noteq> ''all-applications''
             then filter (\<lambda>client. toLowerCase (application client) = applicationFilter) result2
             else result2);
          result4 =
            (if agentFilter \<noteq> ''all-agents''
             then filter (\<lambda>client. toLowerCase (assignedAgent client) = agentFilter) result3
             else result3)
      in if monthFilter \<noteq> ''all-months''
         then filterAt (\<lambda>i client. monthMatches newDate (clock i) monthFilter client) result4
         else result4)"

subsection \<open>The Date of a date-only text\<close>

text \<open>
  The records carry their date as a text \<open>YYYY-MM-DD\<close> (\<open>processClientInfo\<close> writes
  \<open>new Date().toISOString().split("T")[0]\<close>). ECMAScript reads a date-only text as midnight
  UTC of that day, while \<open>getMonth()\<close> and \<open>getFullYear()\<close> answer in local time. The
  definitions below are \<open>new Date(text)\<close> for such texts, read by the two getters in a zone
  whose local time is \<open>tza\<close> minutes ahead of UTC (negative west of Greenwich; taken as
  constant). For a text that is not of this form, or names no day of the calendar, they
  answer \<open>None\<close>, the Invalid Date.
\<close>

definition isLeapYear :: "int \<Rightarrow> bool" where
  "isLeapYear y = (y mod 4 = 0 \<and> (y mod 100 \<noteq> 0 \<or> y mod 400 = 0))"

definition daysInMonth :: "int \<Rightarrow> int \<Rightarrow> int" where
  "daysInMonth y m =
     (if m = 2 then (if isLeapYear y then 29 else 28)
      else if m = 4 \<or> m = 6 \<or> m = 9 \<or> m = 11 then 30 else 31)"

text \<open>Days between 1970-01-01 and a day of the proleptic Gregorian calendar, and back
  (\<open>MakeDay\<close>, and \<open>YearFromTime\<close>, \<open>MonthFromTime\<close>, \<open>DateFromTime\<close> of ECMAScript), counted
  in eras of 400 years that start on the first of March.\<close>

definition daysFromCivil :: "int \<Rightarrow> int \<Rightarrow> int \<Rightarrow> int" where
  "daysFromCivil y m d =
     (let y' = (if m \<le> 2 then y - 1 else y);
          era = y' div 400;
          yoe = y' - era * 400;
          doy = (153 * (if 2 < m then m - 3 else m + 9) + 2) div 5 + d - 1;
          doe = yoe * 365 + yoe div 4 - yoe div 100 + doy
      in era * 146097 + doe - 719468)"

definition civilFromDays :: "int \<Rightarrow> int \<times> int \<times> int" where
  "civilFromDays z0 =
     (let z = z0 + 719468;
          era = z div 146097;
          doe = z - era * 146097;
          yoe = (doe - doe div 1460 + doe div 36524 - doe div 146096) div 365;
          doy = doe - (365 * yoe + yoe div 4 - yoe div 100);
          mp = (5 * doy + 2) div 153;
          d = doy - (153 * mp + 2) div 5 + 1;
          m = (if mp < 10 then mp + 3 else mp - 9);
          y = yoe + era * 400 + (if m \<le> 2 then 1 else 0)
      in (y, m, d))"

fun digitsValue :: "int \<Rightarrow> string \<Rightarrow> int option" where
  "digitsValue acc [] = Some acc"
| "digitsValue acc (c # cs) =
     (if isDigit c then digitsValue (10 * acc + (int (of_char c) - 48)) cs else None)"

definition parseISODate :: "string \<Rightarrow> int option" where
  "parseISODate text =
     (if length text = 10 \<and> text ! 4 = CHR ''-'' \<and> text ! 7 = CHR ''-'' then
        (case (digitsValue 0 (take 4 text), digitsValue 0 (take 2 (drop 5 text)),
               digitsValue 0 (drop 8 text)) of
           (Some y, Some m, Some d) \<Rightarrow>
             if 1 \<le> m \<and> m \<le> 12 \<and> 1 \<le> d \<and> d \<le> daysInMonth y m
             then Some (daysFromCivil y m d * 86400000) else None
         | _ \<Rightarrow> None)
      else None)"

text \<open>The local year and month of the time value \<open>t\<close> (milliseconds since the epoch).\<close>

definition localReading :: "int \<Rightarrow> int \<Rightarrow> jsdate" where
  "localReading tza t =
     (case civilFromDays ((t + tza * 60000) div 86400000) of
        (y, m, d) \<Rightarrow> \<lparr>getFullYear = y, getMonth = m - 1\<rparr>)"

definition newDateISO :: "int \<Rightarrow> string \<Rightarrow> jsdate option" where
  "newDateISO tza text = map_option (localReading tza) (parseISODate text)"

section \<open>JSON values, the REST route and the migration script\<close>

datatype jsval =
    Undefined
  | Null
  | Bool bool
  | Num rat
  | Str string
  | Arr "jsval list"
  | Obj "(string \<times> jsval) list"

datatype js_error = TypeError | Rejected


subsection \<open>GET /clients\<close>

text \<open>A document of a query snapshot: its key \<open>doc.id\<close> and its data \<open>doc.data()\<close>, an
  object given by its properties in order.\<close>

record snapshotDoc =
  docId :: string
  docData :: "(string \<times> jsval) list"

text \<open>Spreading \<open>src\<close> into an object literal that has the properties \<open>obj\<close> so far: each
  property of \<open>src\<close> is defined in turn; one that exists already keeps its place and takes
  the new value. The list keeps the order of definition; JavaScript enumerates property
  names that are array indices before the others, which the list does not show and no
  lookup depends on.\<close>

definition spread :: "(string \<times> jsval) list \<Rightarrow> (string \<times> jsval) list \<Rightarrow> (string \<times> jsval) list" where
  "spread obj src = fold (\<lambda>(k, v). AList.update k v) src obj"

text \<open>\<open>{ id: doc.id, ...doc.data() }\<close>\<close>

definition clientObject :: "snapshotDoc \<Rightarrow> jsval" where
  "clientObject d = Obj (spread [(''id'', Str (docId d))] (docData d))"

record response =
  status :: nat
  body :: jsval

text \<open>\<open>GET\<close>: \<open>currentUser\<close> is \<open>auth.currentUser\<close>, \<open>snapshot\<close> what awaiting \<open>getDocs\<close>
  gives: the documents, or an exception.\<close>

definition GET :: "user option \<Rightarrow> js_error + snapshotDoc list \<Rightarrow> response" where
  "GET currentUser snapshot =
     (case currentUser of
        None \<Rightarrow> \<lparr>status = 401, body = Obj [(''error'', Str ''Unauthorized'')]\<rparr>
      | Some u \<Rightarrow>
          (case snapshot of
             Inl err \<Rightarrow> \<lparr>status = 500, body = Obj [(''error'', Str ''Failed to fetch clients'')]\<rparr>
           | Inr docs \<Rightarrow> \<lparr>status = 200, body = Arr (map clientObject docs)\<rparr>))"

subsection \<open>The migration script\<close>
















section \<open>Notions used to state the properties\<close>

text \<open>The text before the first occurrence of \<open>sep\<close> in a string (the whole string when
  there is none) and the text after it (see \<open>first_occurrence_decomp\<close> and
  \<open>beforeFirst_is_first\<close>).\<close>

fun beforeFirst :: "string \<Rightarrow> string \<Rightarrow> string" where
  "beforeFirst sep [] = []"
| "beforeFirst sep (c # cs) = (if prefix sep (c # cs) then [] else c # beforeFirst sep cs)"

fun afterFirst :: "string \<Rightarrow> string \<Rightarrow> string" where
  "afterFirst sep [] = []"
| "afterFirst sep (c # cs) =
     (if prefix sep (c # cs) then drop (length sep) (c # cs) else afterFirst sep cs)"

text \<open>
  The five variables by name, and what one line of a labeled block does to them, read off
  \<open>labeledLine\<close>: \<open>lineWrite line\<close> is the variable the line assigns together with the
  value assigned, \<open>None\<close> when the line assigns nothing (lemma \<open>labeledLine_lineWrite\<close>).
  Two lines agree unless they assign different values to the same variable.
\<close>

datatype field = Name | Age | Location | Work | Application

definition getField :: "field \<Rightarrow> fields \<Rightarrow> string" where
  "getField fld f =
     (case fld of Name \<Rightarrow> name f | Age \<Rightarrow> age f | Location \<Rightarrow> location f
      | Work \<Rightarrow> work f | Application \<Rightarrow> application f)"

definition setField :: "field \<Rightarrow> string \<Rightarrow> fields \<Rightarrow> fields" where
  "setField fld v f =
     (case fld of Name \<Rightarrow> f\<lparr>name := v\<rparr> | Age \<Rightarrow> f\<lparr>age := v\<rparr> | Location \<Rightarrow> f\<lparr>location := v\<rparr>
      | Work \<Rightarrow> f\<lparr>work := v\<rparr> | Application \<Rightarrow> f\<lparr>application := v\<rparr>)"

definition lineWrite :: "string \<Rightarrow> (field \<times> string) option" where
  "lineWrite line =
     (if \<not> includes_str line '':'' then None
      else
        let k = toLowerCase (trim_str (beforeFirst '':'' line));
            v = trim_str (afterFirst '':'' line)
        in if includes_str k ''name'' then Some (Name, cleanName v)
           else if includes_str k ''age'' then Some (Age, extractAge v)
           else if includes_str k ''loc'' then Some (Location, v)
           else if includes_str k ''work'' \<or> includes_str k ''occupation'' then Some (Work, v)
           else if includes_str k ''app'' then Some (Application, v)
           else None)"

definition agree :: "string \<Rightarrow> string \<Rightarrow> bool" where
  "agree l1 l2 =
     (case lineWrite l1 of
        None \<Rightarrow> True
      | Some (f1, v1) \<Rightarrow>
          (case lineWrite l2 of
             None \<Rightarrow> True
           | Some (f2, v2) \<Rightarrow> f1 \<noteq> f2 \<or> v1 = v2))"

definition noConflict :: "string list \<Rightarrow> bool" where
  "noConflict ls = list_all (\<lambda>l1. list_all (\<lambda>l2. agree l1 l2) ls) ls"




section \<open>Sample inputs\<close>

text \<open>Concrete records, clocks and stores at which the theorems below are instantiated.\<close>

definition sampleClient :: "string \<Rightarrow> string \<Rightarrow> ClientAssignment" where
  "sampleClient ident d =
     \<lparr>name = ''Ann Lee'', age = ''30'', location = ''NY'', work = ''Unknown'',
      application = ''TanTan'', id_field = ident, assignedAgent = ''Kel'', date = d,
      createdAt = None, updatedAt = None\<rparr>"

definition sampleNewDate :: "string \<Rightarrow> jsdate option" where
  "sampleNewDate text =
     (if text = ''2023-12-05'' then Some \<lparr>getFullYear = 2023, getMonth = 11\<rparr>
      else if text = ''2024-01-03'' then Some \<lparr>getFullYear = 2024, getMonth = 0\<rparr>
      else if text = ''2022-12-09'' then Some \<lparr>getFullYear = 2022, getMonth = 11\<rparr>
      else None)"

definition januaryClock :: "nat \<Rightarrow> jsdate" where
  "januaryClock i = \<lparr>getFullYear = 2024, getMonth = 0\<rparr>"

definition sampleEnv :: env where
  "sampleEnv =
     \<lparr>nowISO = ''2024-01-15T10:00:00.000Z'', nowMillis = ''1705312800000'',
      freshId = ''k1'', remoteOk = True, storageOk = True\<rparr>"




section \<open>Splitting and joining\<close>

lemma includes_str_iff: "includes_str s sub \<longleftrightarrow> (\<exists>p q. s = p @ sub @ q)"
proof (induction s)
  case Nil
  show ?case by auto
next
  case (Cons c cs)
  show ?case
  proof
    assume "includes_str (c # cs) sub"
    then consider "prefix sub (c # cs)" | "includes_str cs sub" by auto
    then show "\<exists>p q. c # cs = p @ sub @ q"
    proof cases
      case 1
      then obtain q where "c # cs = sub @ q" by (auto simp: prefix_def)
      then have "c # cs = [] @ sub @ q" by simp
      then show ?thesis by blast
    next
      case 2
      with Cons.IH obtain p q where "cs = p @ sub @ q" by blast
      then have "c # cs = (c # p) @ sub @ q" by simp
      then show ?thesis by blast
    qed
  next
    assume "\<exists>p q. c # cs = p @ sub @ q"
    then obtain p q where pq: "c # cs = p @ sub @ q" by blast
    show "includes_str (c # cs) sub"
    proof (cases p)
      case Nil
      with pq have "prefix sub (c # cs)" by (simp add: prefix_def)
      then show ?thesis by simp
    next
      case (Cons a p')
      with pq have "cs = p' @ sub @ q" by simp
      with Cons.IH have "includes_str cs sub" by blast
      then show ?thesis by simp
    qed
  qed
qed

lemma includes_str_single: "includes_str s [c] \<longleftrightarrow> c \<in> set s"
  by (induction s) auto

lemma beforeFirst_none: "\<not> includes_str s sep \<Longrightarrow> beforeFirst sep s = s"
  by (induction s) auto

lemma first_occurrence_decomp:
  "includes_str s sep \<Longrightarrow> s = beforeFirst sep s @ sep @ afterFirst sep s"
  by (induction s) (auto simp: prefix_def)

lemma beforeFirst_is_first:
  "includes_str s sep \<Longrightarrow> sep \<noteq> [] \<Longrightarrow> \<not> includes_str (beforeFirst sep s @ butlast sep) sep"
proof (induction s)
  case Nil
  then show ?case by simp
next
  case (Cons c cs)
  have short: "\<not> includes_str (butlast sep) sep"
  proof
    assume "includes_str (butlast sep) sep"
    then obtain p q where "butlast sep = p @ sep @ q"
      by (auto simp: includes_str_iff)
    then have "length (butlast sep) = length p + length sep + length q"
      by simp
    moreover have "length (butlast sep) < length sep"
      using Cons.prems(2) by (cases sep rule: rev_cases) simp_all
    ultimately show False by linarith
  qed
  show ?case
  proof (cases "prefix sep (c # cs)")
    case True
    with short show ?thesis by simp
  next
    case False
    with Cons.prems have inc: "includes_str cs sep" by simp
    have "cs = beforeFirst sep cs @ (butlast sep @ [last sep]) @ afterFirst sep cs"
      using first_occurrence_decomp [OF inc]
      by (simp only: append_butlast_last_id [OF Cons.prems(2)])
    then have "c # cs = (c # beforeFirst sep cs @ butlast sep) @ [last sep] @ afterFirst sep cs"
      by simp
    then have "prefix (c # beforeFirst sep cs @ butlast sep) (c # cs)"
      unfolding prefix_def by blast
    with False have "\<not> prefix sep (c # beforeFirst sep cs @ butlast sep)"
      using prefix_order.trans by blast
    with Cons.IH [OF inc Cons.prems(2)] False show ?thesis by simp
  qed
qed

lemma splitFrom_unfold:
  "sep \<noteq> [] \<Longrightarrow>
   splitFrom sep cur s =
     (if includes_str s sep
      then (cur @ beforeFirst sep s) # splitFrom sep [] (afterFirst sep s)
      else [cur @ s])"
proof (induction sep cur s rule: splitFrom.induct)
  case (1 sep cur)
  then show ?case by simp
next
  case (2 sep cur c cs)
  show ?case
  proof (cases "prefix sep (c # cs)")
    case True
    with "2.prems" show ?thesis by simp
  next
    case False
    with "2.IH"(2) "2.prems" show ?thesis by simp
  qed
qed

lemma splitFrom_not_Nil: "splitFrom sep cur s \<noteq> []"
  by (induction sep cur s rule: splitFrom.induct) auto

lemma split_str_not_Nil: "sep \<noteq> [] \<Longrightarrow> split_str s sep \<noteq> []"
  by (simp add: split_str_def splitFrom_not_Nil)

lemma splitFrom_hd: "sep \<noteq> [] \<Longrightarrow> hd (splitFrom sep [] s) = beforeFirst sep s"
  by (subst splitFrom_unfold) (simp_all add: beforeFirst_none)

lemma split_str_hd: "sep \<noteq> [] \<Longrightarrow> hd (split_str s sep) = beforeFirst sep s"
  by (simp add: split_str_def splitFrom_hd)

lemma split_str_none: "sep \<noteq> [] \<Longrightarrow> \<not> includes_str s sep \<Longrightarrow> split_str s sep = [s]"
  by (simp add: split_str_def splitFrom_unfold)

lemma split_str_tl:
  "sep \<noteq> [] \<Longrightarrow> includes_str s sep \<Longrightarrow> tl (split_str s sep) = split_str (afterFirst sep s) sep"
  by (simp add: split_str_def splitFrom_unfold [of sep "[]" s])

lemma split_second:
  assumes "sep \<noteq> []" and "includes_str s sep"
  shows "1 < length (split_str s sep)"
    and "split_str s sep ! 1 = beforeFirst sep (afterFirst sep s)"
proof -
  have eq: "split_str s sep = hd (split_str s sep) # split_str (afterFirst sep s) sep"
    using split_str_tl [OF assms] split_str_not_Nil [OF assms(1), of s]
    by (cases "split_str s sep") simp_all
  from split_str_not_Nil [OF assms(1), of "afterFirst sep s"]
  show "1 < length (split_str s sep)"
    by (subst eq) (simp add: Suc_lessI)
  show "split_str s sep ! 1 = beforeFirst sep (afterFirst sep s)"
    using split_str_not_Nil [OF assms(1), of "afterFirst sep s"]
      split_str_hd [OF assms(1), of "afterFirst sep s"]
    by (subst eq) (simp add: hd_conv_nth)
qed

lemma join_str_Cons: "ps \<noteq> [] \<Longrightarrow> join_str (p # ps) sep = p @ sep @ join_str ps sep"
  by (cases ps) simp_all

lemma join_splitFrom: "sep \<noteq> [] \<Longrightarrow> join_str (splitFrom sep cur s) sep = cur @ s"
proof (induction sep cur s rule: splitFrom.induct)
  case (1 sep cur)
  then show ?case by simp
next
  case (2 sep cur c cs)
  show ?case
  proof (cases "prefix sep (c # cs)")
    case True
    then have "c # cs = sep @ drop (length sep) (c # cs)"
      by (auto simp: prefix_def)
    with True "2.prems" "2.IH"(1) show ?thesis
      by (simp add: join_str_Cons splitFrom_not_Nil del: drop.simps)
  next
    case False
    with "2.IH"(2) "2.prems" show ?thesis by simp
  qed
qed

lemma join_split_str: "sep \<noteq> [] \<Longrightarrow> join_str (split_str s sep) sep = s"
  by (simp add: split_str_def join_splitFrom)

lemma labeledLine_colon:
  "includes_str line '':'' \<Longrightarrow>
   labeledLine line f =
     matchLabel (toLowerCase (trim_str (beforeFirst '':'' line)))
       (trim_str (afterFirst '':'' line)) f"
  by (simp add: labeledLine_def Let_def split_str_hd split_str_tl join_split_str)


section \<open>Properties of the text parser\<close>

text \<open>
  C1 (as amended). When the value contains the separator \<open>" / "\<close>, \<open>cleanName\<close> returns the
  trimmed text between the first separator and the next one, or the end of the value when
  there is no other separator. With exactly one separator this is the whole text after the
  separator, trimmed.
\<close>

theorem cleanName_between_separators:
  assumes "includes_str nameText '' / ''"
  shows "cleanName nameText = trim_str (beforeFirst '' / '' (afterFirst '' / '' nameText)) \<and>
         (\<not> includes_str (afterFirst '' / '' nameText) '' / '' \<longrightarrow>
            cleanName nameText = trim_str (afterFirst '' / '' nameText))"
  using assms split_second(2) [of "'' / ''" nameText]
  by (simp add: cleanName_def beforeFirst_none)

text \<open>The theorem at the value \<open>jane99 / Jane Smith\<close>.\<close>

theorem cleanName_between_separators_witness:
  "includes_str ''jane99 / Jane Smith '' '' / '' \<and>
   \<not> includes_str (afterFirst '' / '' ''jane99 / Jane Smith '') '' / '' \<and>
   cleanName ''jane99 / Jane Smith '' = ''Jane Smith''"
  using cleanName_between_separators [of "''jane99 / Jane Smith ''"]
  by (simp add: trim_str_def isWhiteSpace_def)

text \<open>C1 as stated fails when a second separator follows: of \<open>a / b / c\<close> the name kept is
  \<open>b\<close>, not \<open>b / c\<close>.\<close>

theorem cleanName_second_separator_counterexample:
  "includes_str ''a / b / c'' '' / '' \<and>
   cleanName ''a / b / c'' = ''b'' \<and>
   trim_str (afterFirst '' / '' ''a / b / c'') = ''b / c'' \<and>
   cleanName ''a / b / c'' \<noteq> trim_str (afterFirst '' / '' ''a / b / c'') \<and>
   name (parseClientText (''Name: a / b / c'' @ [CHR 0x0A] @ ''Age: 30'')) = ''b''"
  by code_simp

text \<open>
  C8. A labeled line assigns to exactly one variable, chosen by the first test that
  succeeds in the order \<open>name\<close>, \<open>age\<close>, \<open>loc\<close>, \<open>work\<close> or \<open>occupation\<close>, \<open>app\<close>, where
  the key is the trimmed, lowercased text before the first colon and the value the trimmed
  text after it; the other variables keep their values. A key with both \<open>app\<close> and \<open>name\<close>
  assigns the name.
\<close>

theorem labeledLine_priority:
  assumes "includes_str line '':''"
    and "k = toLowerCase (trim_str (beforeFirst '':'' line))"
    and "v = trim_str (afterFirst '':'' line)"
  shows "(includes_str k ''name'' \<longrightarrow> labeledLine line f = f\<lparr>name := cleanName v\<rparr>) \<and>
         (\<not> includes_str k ''name'' \<and> includes_str k ''age'' \<longrightarrow>
            labeledLine line f = f\<lparr>age := extractAge v\<rparr>) \<and>
         (\<not> includes_str k ''name'' \<and> \<not> includes_str k ''age'' \<and> includes_str k ''loc'' \<longrightarrow>
            labeledLine line f = f\<lparr>location := v\<rparr>) \<and>
         (\<not> includes_str k ''name'' \<and> \<not> includes_str k ''age'' \<and> \<not> includes_str k ''loc'' \<and>
          (includes_str k ''work'' \<or> includes_str k ''occupation'') \<longrightarrow>
            labeledLine line f = f\<lparr>work := v\<rparr>) \<and>
         (\<not> includes_str k ''name'' \<and> \<not> includes_str k ''age'' \<and> \<not> includes_str k ''loc'' \<and>
          \<not> includes_str k ''work'' \<and> \<not> includes_str k ''occupation'' \<and> includes_str k ''app'' \<longrightarrow>
            labeledLine line f = f\<lparr>application := v\<rparr>) \<and>
         (\<not> includes_str k ''name'' \<and> \<not> includes_str k ''age'' \<and> \<not> includes_str k ''loc'' \<and>
          \<not> includes_str k ''work'' \<and> \<not> includes_str k ''occupation'' \<and> \<not> includes_str k ''app'' \<longrightarrow>
            labeledLine line f = f)"
  unfolding labeledLine_colon [OF assms(1)] assms(2) [symmetric] assms(3) [symmetric]
  by (simp add: matchLabel_def)

text \<open>The theorem at the line \<open>App Name: Tinder\<close>.\<close>

theorem labeledLine_priority_witness:
  "includes_str ''App Name: Tinder'' '':'' \<and>
   includes_str ''app name'' ''app'' \<and> includes_str ''app name'' ''name'' \<and>
   labeledLine ''App Name: Tinder''
       \<lparr>name = ''x'', age = ''1'', location = [], work = [], application = ''y''\<rparr> =
     \<lparr>name = ''Tinder'', age = ''1'', location = [], work = [], application = ''y''\<rparr>"
proof -
  have k: "''app name'' = toLowerCase (trim_str (beforeFirst '':'' ''App Name: Tinder''))"
    by code_simp
  have v: "''Tinder'' = trim_str (afterFirst '':'' ''App Name: Tinder'')"
    by code_simp
  have c: "includes_str ''App Name: Tinder'' '':''"
    by code_simp
  have n: "cleanName ''Tinder'' = ''Tinder''"
    by code_simp
  show ?thesis
    using labeledLine_priority [OF c k v,
        of "\<lparr>name = ''x'', age = ''1'', location = [], work = [], application = ''y''\<rparr>"] c n
    by simp
qed

lemma trim_str_Nil_iff: "trim_str t = [] \<longleftrightarrow> (\<forall>c \<in> set t. isWhiteSpace c)"
proof -
  have a: "dropWhile isWhiteSpace t = [] \<longleftrightarrow> (\<forall>c \<in> set t. isWhiteSpace c)"
    by (simp add: dropWhile_eq_Nil_conv)
  have b: "trim_str t = [] \<longleftrightarrow> (\<forall>c \<in> set (dropWhile isWhiteSpace t). isWhiteSpace c)"
    by (simp add: trim_str_def dropWhile_eq_Nil_conv)
  show ?thesis
  proof
    assume "trim_str t = []"
    with b have all: "\<forall>c \<in> set (dropWhile isWhiteSpace t). isWhiteSpace c" by simp
    have "dropWhile isWhiteSpace t = []"
    proof (rule ccontr)
      assume ne: "dropWhile isWhiteSpace t \<noteq> []"
      then have "\<not> isWhiteSpace (hd (dropWhile isWhiteSpace t))"
        by (rule hd_dropWhile)
      moreover from ne have "hd (dropWhile isWhiteSpace t) \<in> set (dropWhile isWhiteSpace t)"
        by simp
      ultimately show False using all by blast
    qed
    with a show "\<forall>c \<in> set t. isWhiteSpace c" by simp
  next
    assume "\<forall>c \<in> set t. isWhiteSpace c"
    with a have d: "dropWhile isWhiteSpace t = []" by simp
    show "trim_str t = []" unfolding trim_str_def d by simp
  qed
qed

lemma splitFrom_pieces:
  "p \<in> set (splitFrom sep cur s) \<Longrightarrow> set p \<subseteq> set cur \<union> set s"
proof (induction sep cur s rule: splitFrom.induct)
  case (1 sep cur)
  then show ?case by simp
next
  case (2 sep cur c cs)
  show ?case
  proof (cases "sep \<noteq> [] \<and> prefix sep (c # cs)")
    case True
    with "2.prems" consider "p = cur"
      | "p \<in> set (splitFrom sep [] (drop (length sep) (c # cs)))"
      by auto
    then show ?thesis
    proof cases
      case 1
      then show ?thesis by auto
    next
      case 2
      from "2.IH"(1) [OF True 2]
      have "set p \<subseteq> set (drop (length sep) (c # cs))" by simp
      also have "\<dots> \<subseteq> set (c # cs)" by (rule set_drop_subset)
      finally show ?thesis by auto
    qed
  next
    case False
    with "2.prems" have "p \<in> set (splitFrom sep (cur @ [c]) cs)" by auto
    from "2.IH"(2) [OF False this] show ?thesis by auto
  qed
qed

lemma split_str_pieces: "p \<in> set (split_str s sep) \<Longrightarrow> set p \<subseteq> set s"
  using splitFrom_pieces [of p sep "[]" s]
  by (auto simp: split_str_def split: if_splits)

lemma blank_no_lines: "trim_str t = [] \<Longrightarrow> nonEmptyLines t = []"
  unfolding nonEmptyLines_def filter_empty_conv
  by (metis split_str_pieces subsetD trim_str_Nil_iff)

text \<open>
  C7 (as amended). A text that is empty or blank (nothing is left of it after trimming,
  line breaks included) is rejected by the guard at the head of \<open>processClientInfo\<close>, with
  the notice \<open>Please enter client information\<close>. A text whose only non-empty line has no
  colon, with or without blank lines around it, is rejected with the notice \<open>Name and age
  are required\<close>. In both cases nothing is created: the state changes by that one notice
  only.
\<close>

theorem single_line_without_colon_rejected:
  "(trim_str (clientText s) = [] \<longrightarrow>
      processClientInfo e s = s\<lparr>toasts := toasts s @ [enterClientInformation]\<rparr>) \<and>
   (nonEmptyLines (clientText s) = [l] \<and> \<not> includes_str l '':'' \<longrightarrow>
      processClientInfo e s = s\<lparr>toasts := toasts s @ [nameAndAgeRequired]\<rparr>)"
proof (intro conjI impI)
  assume "trim_str (clientText s) = []"
  then show "processClientInfo e s = s\<lparr>toasts := toasts s @ [enterClientInformation]\<rparr>"
    by (simp add: processClientInfo_def)
next
  assume a: "nonEmptyLines (clientText s) = [l] \<and> \<not> includes_str l '':''"
  then have "trim_str (clientText s) \<noteq> []"
    using blank_no_lines [of "clientText s"] by auto
  moreover from a have "parseClientText (clientText s) =
      \<lparr>name = [], age = [], location = [], work = [], application = []\<rparr>"
    by (simp add: parseClientText_def hasLabels_def)
  ultimately show "processClientInfo e s = s\<lparr>toasts := toasts s @ [nameAndAgeRequired]\<rparr>"
    by (simp add: processClientInfo_def)
qed

text \<open>The theorem at the line \<open>OnlyOneLine\<close> between two line breaks, and at a text of
  a space, a line break and a tab.\<close>

theorem single_line_without_colon_rejected_witness:
  "nonEmptyLines ([CHR 0x0A] @ ''OnlyOneLine'' @ [CHR 0x0A]) = [''OnlyOneLine''] \<and>
   \<not> includes_str ''OnlyOneLine'' '':'' \<and>
   processClientInfo sampleEnv
       \<lparr>clientText = [CHR 0x0A] @ ''OnlyOneLine'' @ [CHR 0x0A], clients = [],
        savedClients = None, remoteAssignments = [], user = None, isAdmin = False,
        toasts = []\<rparr> =
     \<lparr>clientText = [CHR 0x0A] @ ''OnlyOneLine'' @ [CHR 0x0A], clients = [],
      savedClients = None, remoteAssignments = [], user = None, isAdmin = False,
      toasts = [nameAndAgeRequired]\<rparr> \<and>
   trim_str ('' '' @ [CHR 0x0A, CHR 0x09]) = [] \<and>
   processClientInfo sampleEnv
       \<lparr>clientText = '' '' @ [CHR 0x0A, CHR 0x09], clients = [],
        savedClients = None, remoteAssignments = [], user = None, isAdmin = False,
        toasts = []\<rparr> =
     \<lparr>clientText = '' '' @ [CHR 0x0A, CHR 0x09], clients = [],
      savedClients = None, remoteAssignments = [], user = None, isAdmin = False,
      toasts = [enterClientInformation]\<rparr>"
proof -
  have n: "nonEmptyLines ([CHR 0x0A] @ ''OnlyOneLine'' @ [CHR 0x0A]) = [''OnlyOneLine'']"
    by code_simp
  have c: "\<not> includes_str ''OnlyOneLine'' '':''"
    by code_simp
  have b: "trim_str ('' '' @ [CHR 0x0A, CHR 0x09]) = []"
    by code_simp
  from single_line_without_colon_rejected [of
      "\<lparr>clientText = [CHR 0x0A] @ ''OnlyOneLine'' @ [CHR 0x0A], clients = [],
        savedClients = None, remoteAssignments = [], user = None, isAdmin = False,
        toasts = []\<rparr>" sampleEnv "''OnlyOneLine''"]
    single_line_without_colon_rejected [of
      "\<lparr>clientText = '' '' @ [CHR 0x0A, CHR 0x09], clients = [],
        savedClients = None, remoteAssignments = [], user = None, isAdmin = False,
        toasts = []\<rparr>" sampleEnv "[]"]
    n c b
  show ?thesis by simp
qed

text \<open>C7 as stated fails at the empty text: the notice is not the one for a missing name
  or age.\<close>

theorem empty_text_other_notice_counterexample:
  "processClientInfo
       \<lparr>nowISO = ''2024-01-15T10:00:00.000Z'', nowMillis = ''1705312800000'',
        freshId = ''k1'', remoteOk = True, storageOk = True\<rparr>
       \<lparr>clientText = [], clients = [], savedClients = None,
        remoteAssignments = [], user = None, isAdmin = False, toasts = []\<rparr> =
     \<lparr>clientText = [], clients = [], savedClients = None,
      remoteAssignments = [], user = None, isAdmin = False,
      toasts = [enterClientInformation]\<rparr> \<and>
   enterClientInformation \<noteq> nameAndAgeRequired"
  by (simp add: processClientInfo_def trim_str_def enterClientInformation_def
      nameAndAgeRequired_def destructive_def)

lemma labeledLine_lineWrite:
  "labeledLine line f = (case lineWrite line of None \<Rightarrow> f | Some (fld, v) \<Rightarrow> setField fld v f)"
proof (cases "includes_str line '':''")
  case False
  then show ?thesis by (simp add: labeledLine_def lineWrite_def)
next
  case True
  then show ?thesis
    by (simp add: labeledLine_colon lineWrite_def matchLabel_def setField_def Let_def)
qed

lemma getField_setField:
  "getField fld (setField g v f) = (if fld = g then v else getField fld f)"
  by (cases fld; cases g) (simp_all add: getField_def setField_def)

lemma fields_eqI: "(\<And>fld. getField fld f = getField fld g) \<Longrightarrow> f = g"
proof -
  assume h: "\<And>fld. getField fld f = getField fld g"
  from h [of Name] h [of Age] h [of Location] h [of Work] h [of Application]
  show "f = g" by (simp add: getField_def)
qed

lemma fold_labeledLine_field:
  assumes "\<And>l v. l \<in> set ls \<Longrightarrow> lineWrite l = Some (fld, v) \<Longrightarrow> v = w"
  shows "getField fld (fold labeledLine ls f) =
           (if \<exists>l \<in> set ls. \<exists>v. lineWrite l = Some (fld, v) then w else getField fld f)"
  using assms
proof (induction ls arbitrary: f)
  case Nil
  show ?case by simp
next
  case (Cons l ls)
  have ih: "getField fld (fold labeledLine ls f') =
      (if \<exists>l \<in> set ls. \<exists>v. lineWrite l = Some (fld, v) then w else getField fld f')" for f'
    by (rule Cons.IH) (use Cons.prems in auto)
  have step: "fold labeledLine (l # ls) f = fold labeledLine ls (labeledLine l f)"
    by simp
  show ?case
  proof (cases "lineWrite l")
    case None
    then have "labeledLine l f = f"
      by (simp add: labeledLine_lineWrite)
    with None show ?thesis
      unfolding step ih by simp
  next
    case (Some p)
    obtain g v where p: "p = (g, v)" by (cases p)
    with Some have ll: "labeledLine l f = setField g v f"
      by (simp add: labeledLine_lineWrite)
    show ?thesis
    proof (cases "g = fld")
      case True
      with Some p Cons.prems [of l v] have "v = w" by simp
      with Some p True show ?thesis
        unfolding step ih ll by (auto simp: getField_setField)
    next
      case False
      with Some p show ?thesis
        unfolding step ih ll by (auto simp: getField_setField)
    qed
  qed
qed

lemma noConflict_agree: "noConflict ls \<Longrightarrow> l1 \<in> set ls \<Longrightarrow> l2 \<in> set ls \<Longrightarrow> agree l1 l2"
  by (simp add: noConflict_def list_all_iff)

lemma fold_labeledLine_set:
  assumes "set ls' = set ls" and "noConflict ls"
  shows "fold labeledLine ls' f = fold labeledLine ls f"
proof (rule fields_eqI)
  fix fld
  show "getField fld (fold labeledLine ls' f) = getField fld (fold labeledLine ls f)"
  proof (cases "\<exists>l \<in> set ls. \<exists>v. lineWrite l = Some (fld, v)")
    case False
    then have "\<And>l v. l \<in> set ls \<Longrightarrow> lineWrite l = Some (fld, v) \<Longrightarrow> v = []"
      by blast
    from fold_labeledLine_field [of ls fld "[]" f, OF this]
      fold_labeledLine_field [of ls' fld "[]" f] assms(1) False
    show ?thesis by auto
  next
    case True
    then obtain l0 w where l0: "l0 \<in> set ls" "lineWrite l0 = Some (fld, w)" by blast
    have same: "v = w" if "l \<in> set ls" "lineWrite l = Some (fld, v)" for l v
      using noConflict_agree [OF assms(2) that(1) l0(1)] that(2) l0(2)
      by (simp add: agree_def)
    from fold_labeledLine_field [of ls fld w f, OF same]
      fold_labeledLine_field [of ls' fld w f] same assms(1)
    show ?thesis by auto
  qed
qed

text \<open>
  C2 (as amended). In a labeled block in which no two lines assign different values to the
  same variable, the parsed record does not depend on the order of the lines: a text whose
  non-empty lines are a permutation of those of the block parses to the same record.
\<close>

theorem labeled_lines_permutation:
  assumes "mset (nonEmptyLines t') = mset (nonEmptyLines t)"
    and "hasLabels (nonEmptyLines t)"
    and "noConflict (nonEmptyLines t)"
  shows "parseClientText t' = parseClientText t"
proof -
  from assms(1) have s: "set (nonEmptyLines t') = set (nonEmptyLines t)"
    by (rule mset_eq_setD)
  with assms(2) have "hasLabels (nonEmptyLines t')"
    by (simp add: hasLabels_def list_ex_iff)
  with assms(2) fold_labeledLine_set [OF s assms(3)] show ?thesis
    by (simp add: parseClientText_def)
qed

text \<open>C2 as stated fails for a block with two lines for the same variable: the later line
  wins.\<close>

theorem labeled_lines_permutation_counterexample:
  "mset (nonEmptyLines (''Name: Bob'' @ [CHR 0x0A] @ ''Name: Ann'' @ [CHR 0x0A] @ ''Age: 30'')) =
     mset (nonEmptyLines (''Name: Ann'' @ [CHR 0x0A] @ ''Name: Bob'' @ [CHR 0x0A] @ ''Age: 30'')) \<and>
   hasLabels (nonEmptyLines (''Name: Ann'' @ [CHR 0x0A] @ ''Name: Bob'' @ [CHR 0x0A] @ ''Age: 30'')) \<and>
   name (parseClientText (''Name: Ann'' @ [CHR 0x0A] @ ''Name: Bob'' @ [CHR 0x0A] @ ''Age: 30'')) = ''Bob'' \<and>
   name (parseClientText (''Name: Bob'' @ [CHR 0x0A] @ ''Name: Ann'' @ [CHR 0x0A] @ ''Age: 30'')) = ''Ann'' \<and>
   parseClientText (''Name: Bob'' @ [CHR 0x0A] @ ''Name: Ann'' @ [CHR 0x0A] @ ''Age: 30'') \<noteq>
     parseClientText (''Name: Ann'' @ [CHR 0x0A] @ ''Name: Bob'' @ [CHR 0x0A] @ ''Age: 30'')"
proof -
  have a: "nonEmptyLines (''Name: Ann'' @ [CHR 0x0A] @ ''Name: Bob'' @ [CHR 0x0A] @ ''Age: 30'') =
      [''Name: Ann'', ''Name: Bob'', ''Age: 30'']"
    by code_simp
  have b: "nonEmptyLines (''Name: Bob'' @ [CHR 0x0A] @ ''Name: Ann'' @ [CHR 0x0A] @ ''Age: 30'') =
      [''Name: Bob'', ''Name: Ann'', ''Age: 30'']"
    by code_simp
  have h: "hasLabels [''Name: Ann'', ''Name: Bob'', ''Age: 30'']"
    by code_simp
  have p: "parseClientText (''Name: Ann'' @ [CHR 0x0A] @ ''Name: Bob'' @ [CHR 0x0A] @ ''Age: 30'') =
      \<lparr>name = ''Bob'', age = ''30'', location = [], work = [], application = []\<rparr>"
    by code_simp
  have q: "parseClientText (''Name: Bob'' @ [CHR 0x0A] @ ''Name: Ann'' @ [CHR 0x0A] @ ''Age: 30'') =
      \<lparr>name = ''Ann'', age = ''30'', location = [], work = [], application = []\<rparr>"
    by code_simp
  show ?thesis
    unfolding a b p q using h by simp
qed

text \<open>The theorem at a block of three lines, with the first two exchanged.\<close>

theorem labeled_lines_permutation_witness:
  "mset (nonEmptyLines (''Age: 41yrs old'' @ [CHR 0x0A] @ ''Name: Jane / Smith'' @ [CHR 0x0A] @ ''Loc: NY'')) =
     mset (nonEmptyLines (''Name: Jane / Smith'' @ [CHR 0x0A] @ ''Age: 41yrs old'' @ [CHR 0x0A] @ ''Loc: NY'')) \<and>
   hasLabels (nonEmptyLines (''Name: Jane / Smith'' @ [CHR 0x0A] @ ''Age: 41yrs old'' @ [CHR 0x0A] @ ''Loc: NY'')) \<and>
   noConflict (nonEmptyLines (''Name: Jane / Smith'' @ [CHR 0x0A] @ ''Age: 41yrs old'' @ [CHR 0x0A] @ ''Loc: NY'')) \<and>
   parseClientText (''Age: 41yrs old'' @ [CHR 0x0A] @ ''Name: Jane / Smith'' @ [CHR 0x0A] @ ''Loc: NY'') =
     \<lparr>name = ''Smith'', age = ''41'', location = ''NY'', work = [], application = []\<rparr>"
proof -
  have a: "nonEmptyLines (''Name: Jane / Smith'' @ [CHR 0x0A] @ ''Age: 41yrs old'' @ [CHR 0x0A] @ ''Loc: NY'') =
      [''Name: Jane / Smith'', ''Age: 41yrs old'', ''Loc: NY'']"
    by code_simp
  have b: "nonEmptyLines (''Age: 41yrs old'' @ [CHR 0x0A] @ ''Name: Jane / Smith'' @ [CHR 0x0A] @ ''Loc: NY'') =
      [''Age: 41yrs old'', ''Name: Jane / Smith'', ''Loc: NY'']"
    by code_simp
  have m: "mset (nonEmptyLines (''Age: 41yrs old'' @ [CHR 0x0A] @ ''Name: Jane / Smith'' @ [CHR 0x0A] @ ''Loc: NY'')) =
     mset (nonEmptyLines (''Name: Jane / Smith'' @ [CHR 0x0A] @ ''Age: 41yrs old'' @ [CHR 0x0A] @ ''Loc: NY''))"
    unfolding a b by simp
  have h: "hasLabels (nonEmptyLines (''Name: Jane / Smith'' @ [CHR 0x0A] @ ''Age: 41yrs old'' @ [CHR 0x0A] @ ''Loc: NY''))"
    by code_simp
  have n: "noConflict (nonEmptyLines (''Name: Jane / Smith'' @ [CHR 0x0A] @ ''Age: 41yrs old'' @ [CHR 0x0A] @ ''Loc: NY''))"
    by code_simp
  have p: "parseClientText (''Name: Jane / Smith'' @ [CHR 0x0A] @ ''Age: 41yrs old'' @ [CHR 0x0A] @ ''Loc: NY'') =
     \<lparr>name = ''Smith'', age = ''41'', location = ''NY'', work = [], application = []\<rparr>"
    by code_simp
  from labeled_lines_permutation [OF m h n] m h n p show ?thesis
    by simp
qed

section \<open>Properties of the filter engine\<close>

lemma filterAt_const: "filterAt (\<lambda>i. p) xs = filter p xs"
proof -
  have c: "(\<lambda>(i :: nat, x). p x) = p \<circ> snd"
    by (auto simp: fun_eq_iff)
  have a: "map snd (filter (p \<circ> snd) zs) = filter p (map snd zs)" for zs :: "(nat \<times> 'a) list"
    by (simp only: filter_map)
  have b: "map snd (zip [0..<length xs] xs) = xs"
    by (simp add: map_snd_zip)
  show ?thesis
    unfolding filterAt_def c a b ..
qed

text \<open>
  C5. With the empty search query and the four filters at their values \<open>all-locations\<close>,
  \<open>all-applications\<close>, \<open>all-agents\<close> and \<open>all-months\<close>, the filter effect yields the input
  list itself: the same records in the same order.
\<close>

theorem applyFilters_sentinels:
  "applyFilters newDate clock clientList [] ''all-locations'' ''all-applications''
     ''all-agents'' ''all-months'' = clientList"
  by (simp add: applyFilters_def)

text \<open>The theorem at a list of two records.\<close>

theorem applyFilters_sentinels_witness:
  "applyFilters sampleNewDate januaryClock
       [sampleClient ''a'' ''2023-12-05'', sampleClient ''b'' ''2024-01-03'']
       [] ''all-locations'' ''all-applications'' ''all-agents'' ''all-months'' =
     [sampleClient ''a'' ''2023-12-05'', sampleClient ''b'' ''2024-01-03'']"
  using applyFilters_sentinels [of sampleNewDate januaryClock
      "[sampleClient ''a'' ''2023-12-05'', sampleClient ''b'' ''2024-01-03'']"]
  by simp

text \<open>
  The arithmetic of the month filter \<open>previous\<close> is right: when every clock reading of the
  effect lies in January of the year \<open>y\<close>, it keeps the records whose date, as \<open>newDate\<close>
  reads it, has \<open>getMonth() = 11\<close> and \<open>getFullYear() = y - 1\<close>.
\<close>

lemma previous_wrap_in_january:
  assumes "\<forall>i. getMonth (clock i) = 0 \<and> getFullYear (clock i) = y"
  shows "applyFilters newDate clock clientList searchQuery locationFilter applicationFilter
           agentFilter ''previous'' =
         filter (\<lambda>client. case newDate (date client) of
                     None \<Rightarrow> False
                   | Some d \<Rightarrow> getMonth d = 11 \<and> getFullYear d = y - 1)
           (applyFilters newDate clock clientList searchQuery locationFilter
              applicationFilter agentFilter ''all-months'')"
proof -
  have m: "monthMatches newDate (clock i) ''previous'' =
      (\<lambda>client. case newDate (date client) of
                     None \<Rightarrow> False
                   | Some d \<Rightarrow> getMonth d = 11 \<and> getFullYear d = y - 1)" for i
    using assms by (simp add: monthMatches_def fun_eq_iff)
  show ?thesis
    by (simp add: applyFilters_def Let_def m filterAt_const)
qed

text \<open>
  C4 (a defect of the code). What the filter compares is the local reading of a date that
  was parsed as UTC, so west of UTC a record is read one day early. Eight hours west, in
  January 2024, the filter \<open>previous\<close> keeps the record dated \<open>2024-01-01\<close> (read as
  December 2023) and drops the record dated \<open>2023-12-01\<close> (read as November 2023); at UTC
  the same records give the record of December, as C4 says.
\<close>

theorem previous_west_of_utc:
  "applyFilters (newDateISO (- 480)) januaryClock
       [sampleClient ''a'' ''2024-01-01'', sampleClient ''b'' ''2023-12-01'']
       [] ''all-locations'' ''all-applications'' ''all-agents'' ''previous'' =
     [sampleClient ''a'' ''2024-01-01''] \<and>
   newDateISO (- 480) ''2024-01-01'' = Some \<lparr>getFullYear = 2023, getMonth = 11\<rparr> \<and>
   newDateISO (- 480) ''2023-12-01'' = Some \<lparr>getFullYear = 2023, getMonth = 10\<rparr> \<and>
   applyFilters (newDateISO 0) januaryClock
       [sampleClient ''a'' ''2024-01-01'', sampleClient ''b'' ''2023-12-01'']
       [] ''all-locations'' ''all-applications'' ''all-agents'' ''previous'' =
     [sampleClient ''b'' ''2023-12-01'']"
  by code_simp

section \<open>Properties of deletion and of the administrator flag\<close>

text \<open>
  C6. Without the administrator flag, \<open>handleDeleteClient\<close> changes nothing but the notices:
  the in-memory list, the local storage and the remote collection are as before, and the
  notice \<open>Permission Denied\<close> is shown; this holds for every state and every record id.
\<close>

theorem delete_without_privilege:
  assumes "\<not> isAdmin s"
  shows "handleDeleteClient e s clientId = s\<lparr>toasts := toasts s @ [permissionDenied]\<rparr> \<and>
         clients (handleDeleteClient e s clientId) = clients s \<and>
         savedClients (handleDeleteClient e s clientId) = savedClients s \<and>
         remoteAssignments (handleDeleteClient e s clientId) = remoteAssignments s"
  using assms by (simp add: handleDeleteClient_def)

text \<open>The theorem at a state with one record, asked to delete that record.\<close>

theorem delete_without_privilege_witness:
  "\<not> isAdmin
       \<lparr>clientText = [], clients = [sampleClient ''a'' ''2023-12-05''],
        savedClients = Some [sampleClient ''a'' ''2023-12-05''],
        remoteAssignments = [], user = None, isAdmin = False, toasts = []\<rparr> \<and>
   handleDeleteClient sampleEnv
       \<lparr>clientText = [], clients = [sampleClient ''a'' ''2023-12-05''],
        savedClients = Some [sampleClient ''a'' ''2023-12-05''],
        remoteAssignments = [], user = None, isAdmin = False, toasts = []\<rparr> ''a'' =
     \<lparr>clientText = [], clients = [sampleClient ''a'' ''2023-12-05''],
      savedClients = Some [sampleClient ''a'' ''2023-12-05''],
      remoteAssignments = [], user = None, isAdmin = False, toasts = [permissionDenied]\<rparr>"
  using delete_without_privilege [of
      "\<lparr>clientText = [], clients = [sampleClient ''a'' ''2023-12-05''],
        savedClients = Some [sampleClient ''a'' ''2023-12-05''],
        remoteAssignments = [], user = None, isAdmin = False, toasts = []\<rparr>" sampleEnv "''a''"]
  by simp

lemma member_set: "List.member xs x \<longleftrightarrow> x \<in> set xs"
  by (induction xs) auto

text \<open>
  C10. Without a user the administrator flag is false. With a user it is true exactly when
  the email is one of \<open>admin@example.com\<close> and \<open>manager@example.com\<close> or contains \<open>admin\<close>
  somewhere (a user without email is no administrator). The effect stores this value in
  \<open>isAdmin\<close>, and after the effect a deletion is refused exactly when the value is false.
\<close>

theorem administrator_capability:
  "\<not> adminOf None \<and>
   (adminOf (Some u) \<longleftrightarrow>
      (\<exists>e. email u = Some e \<and>
           (e \<in> set [''admin@example.com'', ''manager@example.com''] \<or>
            (\<exists>p q. e = p @ ''admin'' @ q)))) \<and>
   isAdmin (isAdminEffect s) = adminOf (user s) \<and>
   (toasts (handleDeleteClient env (isAdminEffect s) clientId) = toasts s @ [permissionDenied]
      \<longleftrightarrow> \<not> adminOf (user s))"
proof -
  have "permissionDenied \<noteq> clientDeleted" "permissionDenied \<noteq> failedToDelete"
    by (simp_all add: permissionDenied_def clientDeleted_def failedToDelete_def
        destructive_def notice_def)
  then show ?thesis
    by (auto simp: adminOf_def adminEmails_def includes_str_iff member_set isAdminEffect_def
        handleDeleteClient_def Let_def split: option.splits)
qed

text \<open>The theorem at five users.\<close>

theorem administrator_capability_witness:
  "adminOf (Some \<lparr>email = Some ''superadmin@corp.io''\<rparr>) \<and>
   adminOf (Some \<lparr>email = Some ''manager@example.com''\<rparr>) \<and>
   \<not> adminOf (Some \<lparr>email = Some ''kel@example.com''\<rparr>) \<and>
   \<not> adminOf (Some \<lparr>email = None\<rparr>) \<and>
   \<not> adminOf None"
proof -
  have "includes_str ''superadmin@corp.io'' ''admin''"
    by code_simp
  then have a: "\<exists>p q. ''superadmin@corp.io'' = p @ ''admin'' @ q"
    unfolding includes_str_iff .
  have "\<not> includes_str ''kel@example.com'' ''admin''"
    by code_simp
  then have b: "\<not> (\<exists>p q. ''kel@example.com'' = p @ ''admin'' @ q)"
    unfolding includes_str_iff .
  have 1: "adminOf (Some \<lparr>email = Some ''superadmin@corp.io''\<rparr>)"
    using administrator_capability [of "\<lparr>email = Some ''superadmin@corp.io''\<rparr>"] a
    by simp
  have 2: "adminOf (Some \<lparr>email = Some ''manager@example.com''\<rparr>)"
    using administrator_capability [of "\<lparr>email = Some ''manager@example.com''\<rparr>"]
    by simp
  have 3: "\<not> adminOf (Some \<lparr>email = Some ''kel@example.com''\<rparr>)"
    using administrator_capability [of "\<lparr>email = Some ''kel@example.com''\<rparr>"] b
    by simp
  have 4: "\<not> adminOf (Some \<lparr>email = None\<rparr>)"
    using administrator_capability [of "\<lparr>email = None\<rparr>"]
    by simp
  have 5: "\<not> adminOf None"
    using administrator_capability [of "\<lparr>email = None\<rparr>"]
    by simp
  from 1 2 3 4 5 show ?thesis
    by simp
qed

section \<open>Properties of GET /clients\<close>

lemma map_of_spread: "map_of (spread obj src) = map_of obj ++ map_of (rev src)"
  unfolding spread_def
proof (induction src arbitrary: obj)
  case Nil
  show ?case by simp
next
  case (Cons p src)
  obtain k v where p: "p = (k, v)" by (cases p)
  have "map_of (fold (\<lambda>(k, v). AList.update k v) (p # src) obj) =
        map_of (AList.update k v obj) ++ map_of (rev src)"
    by (simp add: p Cons.IH)
  also have "\<dots> = map_of obj ++ ([k \<mapsto> v] ++ map_of (rev src))"
    by (rule ext) (simp add: update_conv' map_add_def split: option.splits)
  also have "[k \<mapsto> v] ++ map_of (rev src) = map_of (rev (p # src))"
    by (simp add: p)
  finally show ?case .
qed

lemma spread_lookup:
  assumes "distinct (map fst src)" and "(k, v) \<in> set src"
  shows "map_of (spread obj src) k = Some v"
proof -
  from assms have "map_of (rev src) k = Some v"
    by (intro map_of_is_SomeI) (simp_all add: rev_map [symmetric])
  then show ?thesis
    by (simp add: map_of_spread)
qed

lemma spread_lookup_absent:
  assumes "k \<notin> fst ` set src"
  shows "map_of (spread obj src) k = map_of obj k"
proof -
  from assms have "map_of (rev src) k = None"
    by (simp add: map_of_eq_None_iff)
  then show ?thesis
    by (simp add: map_of_spread map_add_def)
qed

text \<open>
  C9. When the data of a stored document has a field \<open>id\<close>, the object that \<open>GET\<close> returns
  for the document has that field's value as its \<open>id\<close>, whatever the document's key is: the
  spread of the data comes after the key in the object literal.
\<close>

theorem GET_id_from_data:
  assumes "i < length docs"
    and "distinct (map fst (docData (docs ! i)))"
    and "(''id'', v) \<in> set (docData (docs ! i))"
  shows "\<exists>objs props.
           GET (Some u) (Inr docs) = \<lparr>status = 200, body = Arr objs\<rparr> \<and>
           length objs = length docs \<and>
           objs ! i = Obj props \<and>
           map_of props ''id'' = Some v"
  using assms by (simp add: GET_def clientObject_def spread_lookup)

text \<open>The theorem at a document with the key \<open>k1\<close> whose data has the \<open>id\<close>
  \<open>custom-7\<close>.\<close>

theorem GET_id_from_data_witness:
  "GET (Some \<lparr>email = Some ''kel@example.com''\<rparr>)
       (Inr [\<lparr>docId = ''k1'', docData = [(''clientName'', Str ''Ann''), (''id'', Str ''custom-7'')]\<rparr>]) =
     \<lparr>status = 200, body = Arr [Obj [(''id'', Str ''custom-7''), (''clientName'', Str ''Ann'')]]\<rparr>"
  using GET_id_from_data [of 0
      "[\<lparr>docId = ''k1'', docData = [(''clientName'', Str ''Ann''), (''id'', Str ''custom-7'')]\<rparr>]"
      "Str ''custom-7''" "\<lparr>email = Some ''kel@example.com''\<rparr>"]
  by (simp add: GET_def clientObject_def spread_def)

section \<open>Properties of the migration script\<close>








end
